theory Spec2Isabelle
  imports Main
begin

section \<open>Python values, strings and exceptions\<close>

text \<open>
  The module \<^verbatim>\<open>versatileimagefield/utils.py\<close> is embedded function by function.
  Python strings are \<open>string\<close> (character lists); the code only ever inspects the ASCII
  characters \<open>.\<close>, \<open>_\<close>, \<open>x\<close>, \<open>/\<close>, the space and the letters of the extensions.
  Exceptions are values: a function that can raise returns \<open>py_error + 'a\<close>, where
  \<open>Inl\<close> is the raised exception.

  A size-key collection is a sequence that can be iterated more than once (a list or a
  tuple), modelled as the list of its elements. The elements are the values the
  docstrings speak of: tuples of strings (of any length, so that a wrong shape can be
  expressed) and plain strings (which Python unpacks character by character). Elements
  that are not iterable or not hashable, and keys that are not strings, are outside the
  model.

  \<open>TypeError\<close> and \<open>PureError\<close> are raised by the caller's objects and by the sniffing
  library only, never by the module itself.
\<close>

datatype elem = PStr string | PTuple "string list"

datatype py_error =
    ValueError
  | TypeError
  | KeyError string
  | AttributeError string
  | PureError
  | InvalidSizeKey string
  | InvalidSizeKeySet "elem list"

text \<open>The class name of an exception, as \<^verbatim>\<open>type(e).__name__\<close> gives it.\<close>

fun exc_name :: "py_error \<Rightarrow> string" where
  "exc_name ValueError = ''ValueError''"
| "exc_name TypeError = ''TypeError''"
| "exc_name (KeyError k) = ''KeyError''"
| "exc_name (AttributeError a) = ''AttributeError''"
| "exc_name PureError = ''PureError''"
| "exc_name (InvalidSizeKey k) = ''InvalidSizeKey''"
| "exc_name (InvalidSizeKeySet s) = ''InvalidSizeKeySet''"

subsection \<open>String primitives of the standard library\<close>

text \<open>
  \<^verbatim>\<open>s.split('__')\<close>: scan from the left, cut at every non-overlapping occurrence of
  the two-character separator. The first argument is the current segment, reversed.
\<close>

fun split_from :: "string \<Rightarrow> string \<Rightarrow> string list" where
  "split_from cur [] = [rev cur]"
| "split_from cur [c] = [rev (c # cur)]"
| "split_from cur (a # b # cs) =
     (if a = CHR ''_'' \<and> b = CHR ''_'' then rev cur # split_from [] cs
      else split_from (a # cur) (b # cs))"

definition split_dunder :: "string \<Rightarrow> string list" where
  "split_dunder s = split_from [] s"

text \<open>
  \<^verbatim>\<open>s.rsplit('.', 1)\<close>: at most one cut, at the last \<open>.\<close>; a one-element list when
  there is none.
\<close>

definition rsplit_dot :: "string \<Rightarrow> string list" where
  "rsplit_dot s =
     (let r = rev s;
          ext_rev = takeWhile (\<lambda>c. c \<noteq> CHR ''.'') r;
          rest = dropWhile (\<lambda>c. c \<noteq> CHR ''.'') r
      in case rest of [] \<Rightarrow> [s] | d # stem_rev \<Rightarrow> [rev stem_rev, rev ext_rev])"

text \<open>\<^verbatim>\<open>s.lower()\<close> on the ASCII letters (no other character lowers to one).\<close>

definition lower_char :: "char \<Rightarrow> char" where
  "lower_char c =
     (let n = (of_char c :: nat) in if 65 \<le> n \<and> n \<le> 90 then char_of (n + 32) else c)"

definition lower :: "string \<Rightarrow> string" where
  "lower s = map lower_char s"

text \<open>\<^verbatim>\<open>'%d' % n\<close> for an integer: decimal digits, a minus sign when negative.\<close>

definition digit_char :: "nat \<Rightarrow> char" where
  "digit_char d = char_of (48 + d)"

fun show_nat :: "nat \<Rightarrow> string" where
  "show_nat n = (if n < 10 then [digit_char n] else show_nat (n div 10) @ [digit_char (n mod 10)])"

declare show_nat.simps [simp del]

definition format_d :: "int \<Rightarrow> string" where
  "format_d i = (if i < 0 then CHR ''-'' # show_nat (nat (- i)) else show_nat (nat i))"

text \<open>\<^verbatim>\<open>s.replace(' ', '')\<close>.\<close>

definition strip_spaces :: "string \<Rightarrow> string" where
  "strip_spaces s = filter (\<lambda>c. c \<noteq> CHR '' '') s"

section \<open>Settings\<close>

text \<open>
  The names imported from \<^verbatim>\<open>.settings\<close> are not part of the module; they are the
  fields of a configuration that every function takes. The post processor is \<^verbatim>\<open>None\<close> or
  a function on strings.
\<close>

record settings =
  JPEG_QUAL :: int
  WEBP_QUAL :: int
  VERSATILEIMAGEFIELD_POST_PROCESSOR :: "(string \<Rightarrow> string) option"
  VERSATILEIMAGEFIELD_SIZED_DIRNAME :: string
  VERSATILEIMAGEFIELD_FILTERED_DIRNAME :: string

section \<open>File names\<close>

definition post_process_image_key :: "settings \<Rightarrow> string \<Rightarrow> string" where
  "post_process_image_key cfg image_key =
     (case VERSATILEIMAGEFIELD_POST_PROCESSOR cfg of
        None \<Rightarrow> image_key
      | Some processor \<Rightarrow> processor image_key)"

text \<open>
  The \<^verbatim>\<open>try\<close> block unpacks the result of \<^verbatim>\<open>rsplit\<close> into two names; with one
  element only that raises \<^verbatim>\<open>ValueError\<close>, and the handler takes the whole name and
  \<^verbatim>\<open>'jpg'\<close>.
\<close>

definition split_ext :: "string \<Rightarrow> string \<times> string" where
  "split_ext filename =
     (case rsplit_dot filename of
        [image_name, ext] \<Rightarrow> (image_name, ext)
      | _ \<Rightarrow> (filename, ''jpg''))"

definition get_resized_filename :: "settings \<Rightarrow> string \<Rightarrow> int \<Rightarrow> int \<Rightarrow> string \<Rightarrow> string" where
  "get_resized_filename cfg filename width height filename_key =
     (let (image_name, ext) = split_ext filename;
          resized_template = filename_key @ ''-'' @ format_d width @ ''x'' @ format_d height;
          quality = (if lower ext = ''webp'' then WEBP_QUAL cfg else JPEG_QUAL cfg);
          resized_key =
            (if lower ext \<in> set [''jpg'', ''jpeg'', ''webp'']
             then resized_template @ ''-'' @ format_d quality
             else resized_template)
      in image_name @ ''-'' @ post_process_image_key cfg resized_key @ ''.'' @ ext)"

definition get_filtered_filename :: "settings \<Rightarrow> string \<Rightarrow> string \<Rightarrow> string" where
  "get_filtered_filename cfg filename filename_key =
     (let (image_name, ext) = split_ext filename
      in image_name @ ''__'' @ filename_key @ ''__.'' @ ext)"

section \<open>Paths\<close>

text \<open>
  \<^verbatim>\<open>os.path.split\<close> and \<^verbatim>\<open>os.path.join\<close> are the standard library's, in their POSIX
  form: \<open>split\<close> cuts after the last slash and strips the slashes that end the head unless
  the head is slashes only; \<open>join\<close> restarts at a component that begins with a slash and
  puts a slash between two components unless the path so far is empty or ends with one.
\<close>

definition startswith_sep :: "string \<Rightarrow> bool" where
  "startswith_sep s = (case s of [] \<Rightarrow> False | c # cs \<Rightarrow> c = CHR ''/'')"

definition endswith_sep :: "string \<Rightarrow> bool" where
  "endswith_sep s = (case rev s of [] \<Rightarrow> False | c # cs \<Rightarrow> c = CHR ''/'')"

definition posix_split :: "string \<Rightarrow> string \<times> string" where
  "posix_split p =
     (let r = rev p;
          tail = rev (takeWhile (\<lambda>c. c \<noteq> CHR ''/'') r);
          head = rev (dropWhile (\<lambda>c. c \<noteq> CHR ''/'') r)
      in (if head \<noteq> [] \<and> \<not> list_all (\<lambda>c. c = CHR ''/'') head
          then rev (dropWhile (\<lambda>c. c = CHR ''/'') (rev head))
          else head,
          tail))"

definition posix_join2 :: "string \<Rightarrow> string \<Rightarrow> string" where
  "posix_join2 path b =
     (if startswith_sep b then b
      else if path = [] \<or> endswith_sep path then path @ b
      else path @ ''/'' @ b)"

definition posix_join :: "string \<Rightarrow> string list \<Rightarrow> string" where
  "posix_join a ps = foldl posix_join2 a ps"

text \<open>The storage argument is a parameter of any type: the bodies never mention it.\<close>

definition get_resized_path ::
  "settings \<Rightarrow> string \<Rightarrow> int \<Rightarrow> int \<Rightarrow> string \<Rightarrow> 's \<Rightarrow> string" where
  "get_resized_path cfg path_to_image width height filename_key storage =
     (let (containing_folder, filename) = posix_split path_to_image;
          resized_filename = get_resized_filename cfg filename width height filename_key;
          joined_path =
            strip_spaces
              (posix_join (VERSATILEIMAGEFIELD_SIZED_DIRNAME cfg)
                 [containing_folder, resized_filename])
      in joined_path)"

definition get_filtered_path :: "settings \<Rightarrow> string \<Rightarrow> string \<Rightarrow> 's \<Rightarrow> string" where
  "get_filtered_path cfg path_to_image filename_key storage =
     (let (containing_folder, filename) = posix_split path_to_image;
          filtered_filename = get_filtered_filename cfg filename filename_key;
          path_to_return =
            posix_join containing_folder
              [VERSATILEIMAGEFIELD_FILTERED_DIRNAME cfg, filtered_filename]
      in strip_spaces path_to_return)"

section \<open>Image metadata\<close>

definition MIME_TYPE_TO_PIL_IDENTIFIER :: "(string \<times> string) list" where
  "MIME_TYPE_TO_PIL_IDENTIFIER =
     [(''image/x-ms-bmp'', ''BMP''),
      (''image/bmp'', ''BMP''),
      (''image/dcx'', ''DCX''),
      (''image/eps'', ''eps''),
      (''image/gif'', ''GIF''),
      (''image/jpeg'', ''JPEG''),
      (''image/pcd'', ''PCD''),
      (''image/pcx'', ''PCX''),
      (''application/pdf'', ''PDF''),
      (''image/png'', ''PNG''),
      (''image/x-ppm'', ''PPM''),
      (''image/psd'', ''PSD''),
      (''image/tiff'', ''TIFF''),
      (''image/x-xbitmap'', ''XBM''),
      (''image/x-xpm'', ''XPM''),
      (''image/webp'', ''WEBP'')]"

text \<open>
  A file-like object is its bytes and its read position. \<^verbatim>\<open>puremagic.magic_stream\<close>
  is a library outside the repository: a parameter that reads the file (so it may move
  the position), and returns its matches, best first, or raises. Of a match only the
  field \<^verbatim>\<open>mime_type\<close> is read.
\<close>

record file_like =
  content :: "nat list"
  pos :: nat

record puremagic_match =
  mime_type :: string

definition seek :: "nat \<Rightarrow> file_like \<Rightarrow> file_like" where
  "seek n f = f\<lparr>pos := n\<rparr>"

definition get_image_metadata_from_file ::
  "(file_like \<Rightarrow> (py_error + puremagic_match list) \<times> file_like) \<Rightarrow> file_like
     \<Rightarrow> (py_error + string \<times> string) \<times> file_like" where
  "get_image_metadata_from_file magic_stream f =
     (case magic_stream f of
        (Inl err, f1) \<Rightarrow> (Inl err, f1)
      | (Inr found, f1) \<Rightarrow>
          (let mime = (case found of [] \<Rightarrow> [] | m # ms \<Rightarrow> mime_type m);
               f2 = seek 0 f1
           in case map_of MIME_TYPE_TO_PIL_IDENTIFIER mime of
                None \<Rightarrow> (Inl (KeyError mime), f2)
              | Some image_format \<Rightarrow> (Inr (image_format, mime), f2)))"

section \<open>Size keys\<close>

text \<open>
  \<^verbatim>\<open>for key, size_key in sizes\<close> unpacks each element into two names; an element
  with another number of items raises \<^verbatim>\<open>ValueError\<close>. A string of two characters
  unpacks into its characters.
\<close>

fun unpack2 :: "elem \<Rightarrow> py_error + string \<times> string" where
  "unpack2 (PTuple [a, b]) = Inr (a, b)"
| "unpack2 (PTuple xs) = Inl ValueError"
| "unpack2 (PStr [a, b]) = Inr ([a], [b])"
| "unpack2 (PStr s) = Inl ValueError"

text \<open>
  The loop of the validation, as it runs inside the \<^verbatim>\<open>try\<close> block. The exception
  \<open>InvalidSizeKey\<close> stands with the size key its message is formatted from.
\<close>

fun check_sizes :: "elem list \<Rightarrow> py_error + unit" where
  "check_sizes [] = Inr ()"
| "check_sizes (e # rest) =
     (case unpack2 e of
        Inl err \<Rightarrow> Inl err
      | Inr (key, size_key) \<Rightarrow>
          (let size_key_split = split_dunder size_key
           in if last size_key_split \<noteq> ''url'' \<and> CHR ''x'' \<notin> set (last size_key_split)
              then Inl (InvalidSizeKey size_key)
              else check_sizes rest))"

text \<open>
  \<^verbatim>\<open>list(set(sizes))\<close> lists the distinct elements in the order of the set's hash table,
  which the language does not fix: the function \<open>list_set\<close> is a parameter, and
  \<open>list_set_ok\<close> is all that is known of it.
\<close>

definition list_set_ok :: "(elem list \<Rightarrow> elem list) \<Rightarrow> bool" where
  "list_set_ok list_set = (\<forall>xs. distinct (list_set xs) \<and> set (list_set xs) = set xs)"

definition validate_versatileimagefield_sizekey_list ::
  "(elem list \<Rightarrow> elem list) \<Rightarrow> elem list \<Rightarrow> py_error + elem list" where
  "validate_versatileimagefield_sizekey_list list_set sizes =
     (case check_sizes sizes of
        Inl ValueError \<Rightarrow> Inl (InvalidSizeKeySet sizes)
      | Inl err \<Rightarrow> Inl err
      | Inr u \<Rightarrow> Inr (list_set sizes))"

section \<open>URLs\<close>

text \<open>
  The image instance and everything reached from it are objects of the caller's: a type
  \<open>'o\<close> with its attribute lookup (\<^verbatim>\<open>getattr(obj, name)\<close>), its keyed lookup
  (\<^verbatim>\<open>obj[key]\<close>) and its truth value, each of the lookups free to raise.
\<close>

record 'o objects =
  getattr :: "'o \<Rightarrow> string \<Rightarrow> py_error + 'o"
  getitem :: "'o \<Rightarrow> string \<Rightarrow> py_error + 'o"
  truth :: "'o \<Rightarrow> bool"

text \<open>\<^verbatim>\<open>reduce(getattr, names, obj)\<close>; the first exception ends the fold.\<close>

definition reduce_getattr :: "'o objects \<Rightarrow> string list \<Rightarrow> 'o \<Rightarrow> py_error + 'o" where
  "reduce_getattr W names obj =
     foldl (\<lambda>acc n. case acc of Inl err \<Rightarrow> Inl err | Inr v \<Rightarrow> getattr W v n) (Inr obj) names"

definition get_url_from_image_key :: "'o objects \<Rightarrow> 'o \<Rightarrow> string \<Rightarrow> py_error + 'o" where
  "get_url_from_image_key W image_instance image_key =
     (let img_key_split = split_dunder image_key;
          (img_key_split, size_key) =
            (if CHR ''x'' \<in> set (last img_key_split)
             then (butlast img_key_split, Some (last img_key_split))
             else (img_key_split, None))
      in case reduce_getattr W img_key_split image_instance of
           Inl err \<Rightarrow> Inl err
         | Inr img_url \<Rightarrow>
             (case size_key of
                None \<Rightarrow> Inr img_url
              | Some k \<Rightarrow>
                  if k \<noteq> [] then
                    (case getitem W img_url k of
                       Inl err \<Rightarrow> Inl err
                     | Inr entry \<Rightarrow> getattr W entry ''url'')
                  else Inr img_url))"

text \<open>
  The body of the loop over the validated set, for one image key: the URL it resolves
  to, passed through \<^verbatim>\<open>request.build_absolute_uri\<close> when a request is given
  (\<open>request\<close> is \<^verbatim>\<open>None\<close> or that method of the request).
\<close>

definition entry_url ::
  "'o objects \<Rightarrow> 'o \<Rightarrow> ('o \<Rightarrow> py_error + 'o) option \<Rightarrow> string \<Rightarrow> py_error + 'o" where
  "entry_url W image_instance request image_key =
     (case get_url_from_image_key W image_instance image_key of
        Inl err \<Rightarrow> Inl err
      | Inr img_url \<Rightarrow>
          (case request of
             None \<Rightarrow> Inr img_url
           | Some build_absolute_uri \<Rightarrow> build_absolute_uri img_url))"

fun build_loop ::
  "'o objects \<Rightarrow> 'o \<Rightarrow> ('o \<Rightarrow> py_error + 'o) option \<Rightarrow> elem list \<Rightarrow> (string \<rightharpoonup> 'o)
     \<Rightarrow> py_error + (string \<rightharpoonup> 'o)" where
  "build_loop W image_instance request [] to_return = Inr to_return"
| "build_loop W image_instance request (e # rest) to_return =
     (case unpack2 e of
        Inl err \<Rightarrow> Inl err
      | Inr (key, image_key) \<Rightarrow>
          (case entry_url W image_instance request image_key of
             Inl err \<Rightarrow> Inl err
           | Inr img_url \<Rightarrow>
               build_loop W image_instance request rest (to_return(key \<mapsto> img_url))))"



section \<open>Concrete settings and objects\<close>

text \<open>
  Settings and objects on which the theorems below are run: a configuration with the
  default (absent) post processor, one whose post processor reverses the key, and a small
  tree of plain objects (a truth value, attributes, keyed entries) whose lookups raise
  \<open>AttributeError\<close> and \<open>KeyError\<close> as those of a plain Python object do.
\<close>

definition cfg70 :: settings where
  "cfg70 =
     \<lparr>JPEG_QUAL = 70, WEBP_QUAL = 75, VERSATILEIMAGEFIELD_POST_PROCESSOR = None,
      VERSATILEIMAGEFIELD_SIZED_DIRNAME = ''__sized__'',
      VERSATILEIMAGEFIELD_FILTERED_DIRNAME = ''__filtered__''\<rparr>"

definition cfg_rev :: settings where
  "cfg_rev = cfg70\<lparr>VERSATILEIMAGEFIELD_POST_PROCESSOR := Some rev\<rparr>"

datatype ex_obj =
    ExUrl string
  | ExObj bool "(string \<times> ex_obj) list" "(string \<times> ex_obj) list"

fun ex_getattr :: "ex_obj \<Rightarrow> string \<Rightarrow> py_error + ex_obj" where
  "ex_getattr (ExObj t attrs entries) n =
     (case map_of attrs n of None \<Rightarrow> Inl (AttributeError n) | Some v \<Rightarrow> Inr v)"
| "ex_getattr (ExUrl s) n = Inl (AttributeError n)"

fun ex_getitem :: "ex_obj \<Rightarrow> string \<Rightarrow> py_error + ex_obj" where
  "ex_getitem (ExObj t attrs entries) k =
     (case map_of entries k of None \<Rightarrow> Inl (KeyError k) | Some v \<Rightarrow> Inr v)"
| "ex_getitem (ExUrl s) k = Inl TypeError"

fun ex_truth :: "ex_obj \<Rightarrow> bool" where
  "ex_truth (ExObj t attrs entries) = t"
| "ex_truth (ExUrl s) = (s \<noteq> [])"

definition ex_world :: "ex_obj objects" where
  "ex_world = \<lparr>getattr = ex_getattr, getitem = ex_getitem, truth = ex_truth\<rparr>"

text \<open>
  An image with the attribute \<open>url\<close> and the capability \<open>crop\<close>, whose entry
  \<open>400x400\<close> has the URL of the specification's example; and an empty image whose
  field has no placeholder.
\<close>

definition ex_root :: ex_obj where
  "ex_root =
     ExObj True
       [(''url'', ExUrl ''http://x/orig.jpg''),
        (''crop'', ExObj True [] [(''400x400'', ExObj True [(''url'', ExUrl ''http://x/y.jpg'')] [])])]
       []"


text \<open>
  Two sniffers that read the file to its end, one finding nothing and one finding plain
  text, and a two-byte file.
\<close>

definition sniff_none :: "file_like \<Rightarrow> (py_error + puremagic_match list) \<times> file_like" where
  "sniff_none f = (Inr [], f\<lparr>pos := length (content f)\<rparr>)"

definition sniff_text :: "file_like \<Rightarrow> (py_error + puremagic_match list) \<times> file_like" where
  "sniff_text f = (Inr [\<lparr>mime_type = ''text/plain''\<rparr>], f\<lparr>pos := length (content f)\<rparr>)"

definition ex_file :: file_like where
  "ex_file = \<lparr>content = [104, 105], pos = 0\<rparr>"

text \<open>
  Size-key collections: one with a repeated pair, one with two keys under one label, and
  the keys of the grammar's examples.
\<close>

definition ex_sizes :: "elem list" where
  "ex_sizes =
     [PTuple [''large'', ''url''], PTuple [''medium'', ''crop__400x400''],
      PTuple [''large'', ''url'']]"



section \<open>The specification's wording, for comparison\<close>

text \<open>
  The resolution algorithm as the specification words it: split the key; when the last
  segment contains \<open>x\<close>, pop it as the dimension token; resolve the remaining
  segments from the root, left to right, by attribute lookup; with a dimension token the
  result is the \<open>url\<close> of the entry keyed by the token on the object reached,
  without one it is the object reached.
\<close>

fun walk_capabilities :: "'o objects \<Rightarrow> 'o \<Rightarrow> string list \<Rightarrow> py_error + 'o" where
  "walk_capabilities W obj [] = Inr obj"
| "walk_capabilities W obj (segment # segments) =
     (case getattr W obj segment of
        Inl err \<Rightarrow> Inl err
      | Inr v \<Rightarrow> walk_capabilities W v segments)"

definition ResolveURL :: "'o objects \<Rightarrow> 'o \<Rightarrow> string \<Rightarrow> py_error + 'o" where
  "ResolveURL W rootObject sizeKey =
     (let segments = split_dunder sizeKey;
          dimensionToken =
            (if CHR ''x'' \<in> set (last segments) then Some (last segments) else None);
          chain = (case dimensionToken of None \<Rightarrow> segments | Some t \<Rightarrow> butlast segments)
      in case walk_capabilities W rootObject chain of
           Inl err \<Rightarrow> Inl err
         | Inr final \<Rightarrow>
             (case dimensionToken of
                None \<Rightarrow> Inr final
              | Some t \<Rightarrow>
                  (case getitem W final t of
                     Inl err \<Rightarrow> Inl err
                   | Inr entry \<Rightarrow> getattr W entry ''url'')))"

text \<open>
  The grammar of the specification: a size key is valid when its last segment is
  \<open>url\<close> or contains \<open>x\<close>; an element is a valid pair when it unpacks into a label
  and a valid size key.
\<close>

definition valid_size_key :: "string \<Rightarrow> bool" where
  "valid_size_key k =
     (last (split_dunder k) = ''url'' \<or> CHR ''x'' \<in> set (last (split_dunder k)))"

definition valid_pair :: "elem \<Rightarrow> bool" where
  "valid_pair e = (case unpack2 e of Inl err \<Rightarrow> False | Inr (label, k) \<Rightarrow> valid_size_key k)"

text \<open>The (label, size key) pairs of a collection, in its order.\<close>

definition pairs_of :: "elem list \<Rightarrow> (string \<times> string) list" where
  "pairs_of sizes =
     concat (map (\<lambda>e. case unpack2 e of Inl err \<Rightarrow> [] | Inr p \<Rightarrow> [p]) sizes)"

section \<open>Lemmas on the string primitives\<close>

lemma rsplit_dot_split:
  assumes "CHR ''.'' \<notin> set ext"
  shows "rsplit_dot (stem @ CHR ''.'' # ext) = [stem, ext]"
proof -
  have ne: "x \<noteq> CHR ''.''" if "x \<in> set (rev ext)" for x
    using assms that by auto
  have "takeWhile (\<lambda>c. c \<noteq> CHR ''.'') (rev ext @ CHR ''.'' # rev stem) = rev ext"
    using takeWhile_append2 [of "rev ext" "\<lambda>c. c \<noteq> CHR ''.''" "CHR ''.'' # rev stem"] ne
    by simp
  moreover have
    "dropWhile (\<lambda>c. c \<noteq> CHR ''.'') (rev ext @ CHR ''.'' # rev stem) = CHR ''.'' # rev stem"
    using dropWhile_append2 [of "rev ext" "\<lambda>c. c \<noteq> CHR ''.''" "CHR ''.'' # rev stem"] ne
    by simp
  ultimately show ?thesis
    by (simp add: rsplit_dot_def)
qed

lemma rsplit_dot_none:
  assumes "CHR ''.'' \<notin> set s"
  shows "rsplit_dot s = [s]"
proof -
  have d: "dropWhile (\<lambda>c. c \<noteq> CHR ''.'') (rev s) = []"
    using assms by auto
  show ?thesis
    unfolding rsplit_dot_def Let_def d by simp
qed

text \<open>
  The stem and the extension of a file name: cut at the last dot, and the whole name
  with \<open>jpg\<close> when it has no dot.
\<close>

lemma split_ext_cases:
  assumes "(CHR ''.'' \<notin> set filename \<and> stem = filename \<and> ext = ''jpg'')
             \<or> (filename = stem @ ''.'' @ ext \<and> CHR ''.'' \<notin> set ext)"
  shows "split_ext filename = (stem, ext)"
  using assms by (auto simp: split_ext_def rsplit_dot_split rsplit_dot_none)

lemma strip_spaces_no_space: "CHR '' '' \<notin> set (strip_spaces s)"
  by (simp add: strip_spaces_def)

section \<open>Sized file names (C3)\<close>





section \<open>Filtered file names (C5)\<close>

text \<open>
  The filtered name never reads the post processor: whatever it is set to, the name is
  the same.
\<close>

lemma get_filtered_filename_any_hook:
  "get_filtered_filename (cfg\<lparr>VERSATILEIMAGEFIELD_POST_PROCESSOR := h\<rparr>) filename filename_key
     = get_filtered_filename cfg filename filename_key"
  by (simp add: get_filtered_filename_def)

text \<open>
  C5. The filtered name is to carry the post-processed key between its double
  underscores. With a post processor that reverses the key, the key \<open>invert\<close> is
  processed to \<open>trevni\<close>, and the function still returns the name with the raw key.
\<close>

theorem get_filtered_filename_raw_key:
  "get_filtered_filename cfg_rev ''photo.png'' ''invert'' = ''photo__invert__.png''
   \<and> post_process_image_key cfg_rev ''invert'' = ''trevni''
   \<and> get_filtered_filename cfg_rev ''photo.png'' ''invert''
       \<noteq> ''photo'' @ ''__'' @ post_process_image_key cfg_rev ''invert'' @ ''__.'' @ ''png''"
  by code_simp

section \<open>Paths (C8, C10)\<close>

text \<open>Every file name has a stem and an extension in the sense of the split.\<close>

lemma filename_split_exists:
  "\<exists>stem ext. (CHR ''.'' \<notin> set filename \<and> stem = filename \<and> ext = ''jpg'')
             \<or> (filename = stem @ ''.'' @ ext \<and> CHR ''.'' \<notin> set ext)"
proof (cases "CHR ''.'' \<in> set filename")
  case True
  then obtain ys zs where "filename = ys @ CHR ''.'' # zs" and "CHR ''.'' \<notin> set zs"
    using split_list_last [of "CHR ''.''" filename] by blast
  then show ?thesis by auto
next
  case False
  then show ?thesis by blast
qed

lemma split_ext_stem_chars: "set (fst (split_ext filename)) \<subseteq> set filename"
proof -
  obtain stem ext where c: "(CHR ''.'' \<notin> set filename \<and> stem = filename \<and> ext = ''jpg'')
             \<or> (filename = stem @ ''.'' @ ext \<and> CHR ''.'' \<notin> set ext)"
    using filename_split_exists by blast
  then have "split_ext filename = (stem, ext)" by (rule split_ext_cases)
  with c show ?thesis by auto
qed

text \<open>
  The encoded name of a file name without a slash does not begin with a slash, so
  \<open>join\<close> never restarts at it.
\<close>

lemma resized_filename_no_leading_sep:
  assumes "CHR ''/'' \<notin> set filename"
  shows "\<not> startswith_sep (get_resized_filename cfg filename width height filename_key)"
proof -
  obtain stem ext where s: "split_ext filename = (stem, ext)"
    by (cases "split_ext filename")
  with split_ext_stem_chars [of filename] assms have "CHR ''/'' \<notin> set stem"
    by auto
  with s show ?thesis
    by (cases stem) (auto simp: get_resized_filename_def startswith_sep_def Let_def)
qed

lemma filtered_filename_no_leading_sep:
  assumes "CHR ''/'' \<notin> set filename"
  shows "\<not> startswith_sep (get_filtered_filename cfg filename filename_key)"
proof -
  obtain stem ext where s: "split_ext filename = (stem, ext)"
    by (cases "split_ext filename")
  with split_ext_stem_chars [of filename] assms have "CHR ''/'' \<notin> set stem"
    by auto
  with s show ?thesis
    by (cases stem) (auto simp: get_filtered_filename_def startswith_sep_def Let_def)
qed

lemma endswith_sep_last: "endswith_sep s \<longleftrightarrow> s \<noteq> [] \<and> last s = CHR ''/''"
  by (cases s rule: rev_cases) (simp_all add: endswith_sep_def)

text \<open>
  The split and the join on ordinary arguments: a path made of a folder that does not
  end with a slash and a file name without slashes splits into the two; components that
  neither begin nor end with a slash are joined with single slashes.
\<close>

lemma posix_split_plain:
  assumes "CHR ''/'' \<notin> set name" and "folder \<noteq> []" and "\<not> endswith_sep folder"
  shows "posix_split (folder @ CHR ''/'' # name) = (folder, name)"
proof -
  have ne: "x \<noteq> CHR ''/''" if "x \<in> set (rev name)" for x
    using assms(1) that by auto
  have t: "takeWhile (\<lambda>c. c \<noteq> CHR ''/'') (rev name @ CHR ''/'' # rev folder) = rev name"
    using takeWhile_append2 [of "rev name" "\<lambda>c. c \<noteq> CHR ''/''" "CHR ''/'' # rev folder"] ne
    by simp
  have d: "dropWhile (\<lambda>c. c \<noteq> CHR ''/'') (rev name @ CHR ''/'' # rev folder)
             = CHR ''/'' # rev folder"
    using dropWhile_append2 [of "rev name" "\<lambda>c. c \<noteq> CHR ''/''" "CHR ''/'' # rev folder"] ne
    by simp
  from assms(2,3) obtain ys y where f: "folder = ys @ [y]" and y: "y \<noteq> CHR ''/''"
    by (cases folder rule: rev_cases) (auto simp: endswith_sep_def)
  have head: "rev (dropWhile (\<lambda>c. c \<noteq> CHR ''/'') (rev (folder @ CHR ''/'' # name)))
                = folder @ ''/''"
    using d by simp
  have tail: "rev (takeWhile (\<lambda>c. c \<noteq> CHR ''/'') (rev (folder @ CHR ''/'' # name))) = name"
    using t by simp
  have notall: "\<not> list_all (\<lambda>c. c = CHR ''/'') (folder @ ''/'')"
    using f y by simp
  have strip: "rev (dropWhile (\<lambda>c. c = CHR ''/'') (rev (folder @ ''/''))) = folder"
    using f y by simp
  show ?thesis
    unfolding posix_split_def Let_def head tail
    using notall strip by simp
qed

lemma posix_join_plain:
  assumes "a \<noteq> []" and "\<not> endswith_sep a"
      and "b \<noteq> []" and "\<not> startswith_sep b" and "\<not> endswith_sep b"
      and "\<not> startswith_sep c"
  shows "posix_join a [b, c] = a @ ''/'' @ b @ ''/'' @ c"
  using assms
  by (simp add: posix_join_def posix_join2_def endswith_sep_last)

lemma path_templates_plain:
  assumes "CHR ''/'' \<notin> set name" and "folder \<noteq> []"
      and "\<not> startswith_sep folder" and "\<not> endswith_sep folder"
      and "VERSATILEIMAGEFIELD_SIZED_DIRNAME cfg \<noteq> []"
      and "\<not> endswith_sep (VERSATILEIMAGEFIELD_SIZED_DIRNAME cfg)"
      and "VERSATILEIMAGEFIELD_FILTERED_DIRNAME cfg \<noteq> []"
      and "\<not> startswith_sep (VERSATILEIMAGEFIELD_FILTERED_DIRNAME cfg)"
      and "\<not> endswith_sep (VERSATILEIMAGEFIELD_FILTERED_DIRNAME cfg)"
  shows "get_resized_path cfg (folder @ ''/'' @ name) width height filename_key storage =
           strip_spaces
             (VERSATILEIMAGEFIELD_SIZED_DIRNAME cfg @ ''/'' @ folder @ ''/'' @
              get_resized_filename cfg name width height filename_key)
         \<and> get_filtered_path cfg (folder @ ''/'' @ name) filter_key storage =
           strip_spaces
             (folder @ ''/'' @ VERSATILEIMAGEFIELD_FILTERED_DIRNAME cfg @ ''/'' @
              get_filtered_filename cfg name filter_key)"
proof -
  have s: "posix_split (folder @ ''/'' @ name) = (folder, name)"
    using posix_split_plain [OF assms(1,2,4)] by simp
  have j1: "posix_join (VERSATILEIMAGEFIELD_SIZED_DIRNAME cfg)
              [folder, get_resized_filename cfg name width height filename_key]
            = VERSATILEIMAGEFIELD_SIZED_DIRNAME cfg @ ''/'' @ folder @ ''/'' @
              get_resized_filename cfg name width height filename_key"
    using assms resized_filename_no_leading_sep [OF assms(1)]
    by (intro posix_join_plain) simp_all
  have j2: "posix_join folder
              [VERSATILEIMAGEFIELD_FILTERED_DIRNAME cfg, get_filtered_filename cfg name filter_key]
            = folder @ ''/'' @ VERSATILEIMAGEFIELD_FILTERED_DIRNAME cfg @ ''/'' @
              get_filtered_filename cfg name filter_key"
    using assms filtered_filename_no_leading_sep [OF assms(1)]
    by (intro posix_join_plain) simp_all
  show ?thesis
    unfolding get_resized_path_def get_filtered_path_def s Let_def split_conv j1 j2
    by simp
qed

text \<open>
  C8. For every original path, split into its containing folder and its file name: the
  sized path is the join of the sized directory, the folder and the sized name; the
  filtered path is the join of the folder, the filtered directory and the filtered
  name; and both are returned with every space removed. For an ordinary relative path
  \<open>folder/name\<close> and ordinary directory names, the two joins are
  \<open>SIZED/folder/sized-name\<close> and \<open>folder/FILTERED/filtered-name\<close>.
\<close>

theorem path_templates:
  "get_resized_path cfg path_to_image width height filename_key storage =
     strip_spaces
       (posix_join (VERSATILEIMAGEFIELD_SIZED_DIRNAME cfg)
          [fst (posix_split path_to_image),
           get_resized_filename cfg (snd (posix_split path_to_image)) width height filename_key])
   \<and> get_filtered_path cfg path_to_image filter_key storage =
     strip_spaces
       (posix_join (fst (posix_split path_to_image))
          [VERSATILEIMAGEFIELD_FILTERED_DIRNAME cfg,
           get_filtered_filename cfg (snd (posix_split path_to_image)) filter_key])
   \<and> CHR '' '' \<notin> set (get_resized_path cfg path_to_image width height filename_key storage)
   \<and> CHR '' '' \<notin> set (get_filtered_path cfg path_to_image filter_key storage)
   \<and> (CHR ''/'' \<notin> set name \<and> folder \<noteq> []
        \<and> \<not> startswith_sep folder \<and> \<not> endswith_sep folder
        \<and> VERSATILEIMAGEFIELD_SIZED_DIRNAME cfg \<noteq> []
        \<and> \<not> endswith_sep (VERSATILEIMAGEFIELD_SIZED_DIRNAME cfg)
        \<and> VERSATILEIMAGEFIELD_FILTERED_DIRNAME cfg \<noteq> []
        \<and> \<not> startswith_sep (VERSATILEIMAGEFIELD_FILTERED_DIRNAME cfg)
        \<and> \<not> endswith_sep (VERSATILEIMAGEFIELD_FILTERED_DIRNAME cfg)
      \<longrightarrow> get_resized_path cfg (folder @ ''/'' @ name) width height filename_key storage =
            strip_spaces
              (VERSATILEIMAGEFIELD_SIZED_DIRNAME cfg @ ''/'' @ folder @ ''/'' @
               get_resized_filename cfg name width height filename_key)
          \<and> get_filtered_path cfg (folder @ ''/'' @ name) filter_key storage =
            strip_spaces
              (folder @ ''/'' @ VERSATILEIMAGEFIELD_FILTERED_DIRNAME cfg @ ''/'' @
               get_filtered_filename cfg name filter_key))"
proof -
  have "get_resized_path cfg path_to_image width height filename_key storage =
     strip_spaces
       (posix_join (VERSATILEIMAGEFIELD_SIZED_DIRNAME cfg)
          [fst (posix_split path_to_image),
           get_resized_filename cfg (snd (posix_split path_to_image)) width height filename_key])"
    by (simp add: get_resized_path_def split_def Let_def)
  moreover have "get_filtered_path cfg path_to_image filter_key storage =
     strip_spaces
       (posix_join (fst (posix_split path_to_image))
          [VERSATILEIMAGEFIELD_FILTERED_DIRNAME cfg,
           get_filtered_filename cfg (snd (posix_split path_to_image)) filter_key])"
    by (simp add: get_filtered_path_def split_def Let_def)
  moreover have
    "CHR '' '' \<notin> set (get_resized_path cfg path_to_image width height filename_key storage)"
    by (simp add: get_resized_path_def split_def Let_def strip_spaces_no_space)
  moreover have "CHR '' '' \<notin> set (get_filtered_path cfg path_to_image filter_key storage)"
    by (simp add: get_filtered_path_def split_def Let_def strip_spaces_no_space)
  ultimately show ?thesis
    using path_templates_plain [of name folder cfg width height filename_key storage filter_key]
    by blast
qed

text \<open>
  A path with spaces in the folder and in the file name, under the default directory
  names.
\<close>

lemma spaced_path_plain:
  "CHR ''/'' \<notin> set ''photo 1.jpg'' \<and> ''media/my photos'' \<noteq> []
   \<and> \<not> startswith_sep ''media/my photos'' \<and> \<not> endswith_sep ''media/my photos''
   \<and> VERSATILEIMAGEFIELD_SIZED_DIRNAME cfg70 \<noteq> []
   \<and> \<not> endswith_sep (VERSATILEIMAGEFIELD_SIZED_DIRNAME cfg70)
   \<and> VERSATILEIMAGEFIELD_FILTERED_DIRNAME cfg70 \<noteq> []
   \<and> \<not> startswith_sep (VERSATILEIMAGEFIELD_FILTERED_DIRNAME cfg70)
   \<and> \<not> endswith_sep (VERSATILEIMAGEFIELD_FILTERED_DIRNAME cfg70)"
  by code_simp

lemma spaced_path_sized:
  "strip_spaces
     (VERSATILEIMAGEFIELD_SIZED_DIRNAME cfg70 @ ''/'' @ ''media/my photos'' @ ''/'' @
      get_resized_filename cfg70 ''photo 1.jpg'' 400 300 ''crop'')
   = ''__sized__/media/myphotos/photo1-crop-400x300-70.jpg''"
  by code_simp

lemma spaced_path_filtered:
  "strip_spaces
     (''media/my photos'' @ ''/'' @ VERSATILEIMAGEFIELD_FILTERED_DIRNAME cfg70 @ ''/'' @
      get_filtered_filename cfg70 ''photo 1.jpg'' ''invert'')
   = ''media/myphotos/__filtered__/photo1__invert__.jpg''"
  by code_simp

theorem path_templates_spaced:
  "get_resized_path cfg70 ''media/my photos/photo 1.jpg'' 400 300 ''crop'' ()
     = ''__sized__/media/myphotos/photo1-crop-400x300-70.jpg''
   \<and> get_filtered_path cfg70 ''media/my photos/photo 1.jpg'' ''invert'' ()
     = ''media/myphotos/__filtered__/photo1__invert__.jpg''"
proof -
  have p: "''media/my photos'' @ ''/'' @ ''photo 1.jpg'' = ''media/my photos/photo 1.jpg''"
    by simp
  from path_templates [where cfg = cfg70 and name = "''photo 1.jpg''"
      and folder = "''media/my photos''" and width = 400 and height = 300
      and filename_key = "''crop''" and filter_key = "''invert''" and storage = "()"]
    spaced_path_plain
  have "get_resized_path cfg70 (''media/my photos'' @ ''/'' @ ''photo 1.jpg'') 400 300 ''crop'' ()
          = strip_spaces
              (VERSATILEIMAGEFIELD_SIZED_DIRNAME cfg70 @ ''/'' @ ''media/my photos'' @ ''/'' @
               get_resized_filename cfg70 ''photo 1.jpg'' 400 300 ''crop'')"
    and "get_filtered_path cfg70 (''media/my photos'' @ ''/'' @ ''photo 1.jpg'') ''invert'' ()
          = strip_spaces
              (''media/my photos'' @ ''/'' @ VERSATILEIMAGEFIELD_FILTERED_DIRNAME cfg70 @ ''/'' @
               get_filtered_filename cfg70 ''photo 1.jpg'' ''invert'')"
    by blast+
  then show ?thesis
    unfolding p spaced_path_sized spaced_path_filtered by (rule conjI)
qed

text \<open>
  C10. Two calls of the sized-path builder, or of the filtered-path builder, that differ
  in the storage argument only (storages of any two types) return the same path.
\<close>

theorem paths_ignore_storage:
  "get_resized_path cfg path_to_image width height filename_key storage1
     = get_resized_path cfg path_to_image width height filename_key storage2
   \<and> get_filtered_path cfg path_to_image filter_key storage1
     = get_filtered_path cfg path_to_image filter_key storage2"
  by (simp add: get_resized_path_def get_filtered_path_def)

theorem paths_ignore_storage_spaced:
  "get_resized_path cfg70 ''media/my photos/photo 1.jpg'' 400 300 ''crop'' (0::nat)
     = get_resized_path cfg70 ''media/my photos/photo 1.jpg'' 400 300 ''crop'' ''s3''
   \<and> get_filtered_path cfg70 ''media/my photos/photo 1.jpg'' ''invert'' (0::nat)
     = get_filtered_path cfg70 ''media/my photos/photo 1.jpg'' ''invert'' ''s3''"
  using paths_ignore_storage [of cfg70 "''media/my photos/photo 1.jpg''" 400 300 "''crop''"
      "0::nat" "''s3''" "''invert''"]
  by simp

section \<open>URL resolution (C1, C6)\<close>

text \<open>
  \<^verbatim>\<open>split\<close> never returns the empty list, so the subscript \<^verbatim>\<open>[-1]\<close> of the code is
  always in range.
\<close>

lemma split_from_nonempty: "split_from cur s \<noteq> []"
  by (induction cur s rule: split_from.induct) auto

lemma split_dunder_nonempty: "split_dunder s \<noteq> []"
  by (simp add: split_dunder_def split_from_nonempty)

lemma foldl_getattr_Inl:
  "foldl (\<lambda>acc n. case acc of Inl err \<Rightarrow> Inl err | Inr v \<Rightarrow> getattr W v n) (Inl e) names = Inl e"
  by (induction names) auto

lemma reduce_getattr_Nil: "reduce_getattr W [] obj = Inr obj"
  by (simp add: reduce_getattr_def)

lemma reduce_getattr_Cons:
  "reduce_getattr W (n # names) obj =
     (case getattr W obj n of Inl err \<Rightarrow> Inl err | Inr v \<Rightarrow> reduce_getattr W names v)"
  by (cases "getattr W obj n") (simp_all add: reduce_getattr_def foldl_getattr_Inl)

lemma reduce_getattr_walk: "reduce_getattr W names obj = walk_capabilities W obj names"
  by (induction names arbitrary: obj)
     (auto simp: reduce_getattr_Nil reduce_getattr_Cons split: sum.splits)

text \<open>
  The code tests the popped token for truth (\<^verbatim>\<open>if size_key:\<close>) where the
  specification asks whether a token was popped; a popped token contains \<open>x\<close>, so it is
  not the empty string and the two agree.
\<close>

lemma get_url_eq_ResolveURL: "get_url_from_image_key W root sizeKey = ResolveURL W root sizeKey"
proof (cases "CHR ''x'' \<in> set (last (split_dunder sizeKey))")
  case True
  then have "last (split_dunder sizeKey) \<noteq> []" by auto
  with True show ?thesis
    by (simp add: get_url_from_image_key_def ResolveURL_def Let_def reduce_getattr_walk
        split: sum.splits)
next
  case False
  then show ?thesis
    by (simp add: get_url_from_image_key_def ResolveURL_def Let_def reduce_getattr_walk
        split: sum.splits)
qed

lemma crop_split: "split_dunder ''crop__400x400'' = [''crop'', ''400x400'']"
  by code_simp

text \<open>
  C1. For every root object and size key the function computes what the capability-chain
  algorithm of the specification computes (\<open>ResolveURL\<close>); and for a root whose \<open>crop\<close>
  capability yields an object with the keyed entry \<open>400x400\<close> whose \<open>url\<close> is \<open>u\<close>,
  resolving \<open>crop__400x400\<close> returns \<open>u\<close>.
\<close>

theorem get_url_from_image_key_resolves:
  "get_url_from_image_key W root sizeKey = ResolveURL W root sizeKey
   \<and> (getattr W root ''crop'' = Inr c \<and> getitem W c ''400x400'' = Inr entry
        \<and> getattr W entry ''url'' = Inr u
      \<longrightarrow> get_url_from_image_key W root ''crop__400x400'' = Inr u)"
  by (simp add: get_url_eq_ResolveURL ResolveURL_def crop_split)

theorem get_url_from_image_key_example:
  "get_url_from_image_key ex_world ex_root ''crop__400x400'' = Inr (ExUrl ''http://x/y.jpg'')
   \<and> get_url_from_image_key ex_world ex_root ''url'' = ResolveURL ex_world ex_root ''url''"
proof -
  have a: "getattr ex_world ex_root ''crop''
             = Inr (ExObj True []
                      [(''400x400'', ExObj True [(''url'', ExUrl ''http://x/y.jpg'')] [])])"
    by code_simp
  have b: "getitem ex_world
             (ExObj True [] [(''400x400'', ExObj True [(''url'', ExUrl ''http://x/y.jpg'')] [])])
             ''400x400''
             = Inr (ExObj True [(''url'', ExUrl ''http://x/y.jpg'')] [])"
    by code_simp
  have c: "getattr ex_world (ExObj True [(''url'', ExUrl ''http://x/y.jpg'')] []) ''url''
             = Inr (ExUrl ''http://x/y.jpg'')"
    by code_simp
  show ?thesis
    using get_url_from_image_key_resolves [where W = ex_world and root = ex_root
        and sizeKey = "''url''" and u = "ExUrl ''http://x/y.jpg''"] a b c
    by blast
qed






section \<open>Image metadata (C7)\<close>

lemma empty_mime_unknown: "map_of MIME_TYPE_TO_PIL_IDENTIFIER [] = None"
  by code_simp

text \<open>
  C7, as the code has it. When the sniffer returns its matches and the MIME type of the
  first one is not a key of the table, the function raises the \<open>KeyError\<close> of the table
  lookup, carrying that MIME string, after the file has been rewound; with no match at all
  the string looked up is the empty string, which is not a key either. The module has no
  \<open>UnsupportedFormat\<close>.
\<close>

theorem unknown_mime_raises_KeyError:
  assumes "magic_stream f = (Inr found, f1)"
  shows "(\<forall>m ms. found = m # ms \<and> mime_type m \<notin> fst ` set MIME_TYPE_TO_PIL_IDENTIFIER
            \<longrightarrow> get_image_metadata_from_file magic_stream f
                  = (Inl (KeyError (mime_type m)), seek 0 f1))
         \<and> (found = []
            \<longrightarrow> get_image_metadata_from_file magic_stream f = (Inl (KeyError []), seek 0 f1))"
  using assms
  by (auto simp: get_image_metadata_from_file_def Let_def empty_mime_unknown
      map_of_eq_None_iff [THEN iffD2])

lemma text_plain_unknown: "''text/plain'' \<notin> fst ` set MIME_TYPE_TO_PIL_IDENTIFIER"
  by (simp add: MIME_TYPE_TO_PIL_IDENTIFIER_def)

lemma sniff_text_ex_file:
  "sniff_text ex_file
     = (Inr [\<lparr>mime_type = ''text/plain''\<rparr>], \<lparr>content = [104, 105], pos = 2\<rparr>)"
  by (simp add: sniff_text_def ex_file_def)

theorem unknown_mime_example:
  "get_image_metadata_from_file sniff_text ex_file = (Inl (KeyError ''text/plain''), ex_file)"
  using unknown_mime_raises_KeyError
      [where magic_stream = sniff_text and f = ex_file, OF sniff_text_ex_file]
    text_plain_unknown
  by (simp add: seek_def ex_file_def)

text \<open>
  C7 as the specification states it fails: for a stream sniffed as plain text,
  and for one with no match, the error is a \<open>KeyError\<close>, not an \<open>UnsupportedFormat\<close>.
\<close>

theorem unknown_mime_not_UnsupportedFormat:
  "get_image_metadata_from_file sniff_text ex_file = (Inl (KeyError ''text/plain''), ex_file)
   \<and> exc_name (KeyError ''text/plain'') \<noteq> ''UnsupportedFormat''
   \<and> get_image_metadata_from_file sniff_none ex_file = (Inl (KeyError []), ex_file)
   \<and> exc_name (KeyError []) \<noteq> ''UnsupportedFormat''"
  by code_simp

section \<open>Validation of size-key collections (C2, C4)\<close>

lemma unpack2_error: "unpack2 e = Inl err \<Longrightarrow> err = ValueError"
  by (erule unpack2.elims) auto

text \<open>
  The loop stops at the first element that is not a valid pair, with the error of that
  element.
\<close>

lemma check_sizes_find:
  "check_sizes sizes =
     (case find (\<lambda>e. \<not> valid_pair e) sizes of
        None \<Rightarrow> Inr ()
      | Some e \<Rightarrow>
          (case unpack2 e of Inl err \<Rightarrow> Inl ValueError | Inr (l, k) \<Rightarrow> Inl (InvalidSizeKey k)))"
proof (induction sizes)
  case Nil
  then show ?case by simp
next
  case (Cons e sizes)
  show ?case
  proof (cases "unpack2 e")
    case (Inl err)
    then show ?thesis by (simp add: valid_pair_def unpack2_error)
  next
    case (Inr p)
    then show ?thesis
      using Cons.IH by (cases p) (simp add: valid_pair_def valid_size_key_def Let_def)
  qed
qed

lemma find_invalid_None: "find (\<lambda>e. \<not> valid_pair e) sizes = None \<longleftrightarrow> list_all valid_pair sizes"
  by (auto simp: find_None_iff list_all_iff)

lemma validate_valid:
  assumes "list_all valid_pair sizes"
  shows "validate_versatileimagefield_sizekey_list list_set sizes = Inr (list_set sizes)"
  using assms find_invalid_None [of sizes]
  by (simp add: validate_versatileimagefield_sizekey_list_def check_sizes_find)






lemma distinct_singleton_set:
  assumes "distinct xs" and "set xs = {p}"
  shows "xs = [p]"
proof (cases xs)
  case Nil
  with assms show ?thesis by simp
next
  case (Cons a ys)
  with assms have "a = p" and "set ys \<subseteq> {p}" and "p \<notin> set ys" by auto
  then have "ys = []" by (cases ys) auto
  with Cons \<open>a = p\<close> show ?thesis by simp
qed

text \<open>
  C4. Whatever order \<^verbatim>\<open>list(set(...))\<close> lists a set in: for every collection \<open>S\<close> of
  valid pairs, validation returns the distinct elements of \<open>S\<close>, validating the result
  again returns the same elements, and a pair given twice validates to what the pair
  given once validates to, a single pair.
\<close>

theorem validate_idempotent_dedup:
  assumes "list_set_ok list_set" and "list_all valid_pair S" and "valid_pair p"
  shows "(\<exists>ys zs. validate_versatileimagefield_sizekey_list list_set S = Inr ys
            \<and> validate_versatileimagefield_sizekey_list list_set ys = Inr zs
            \<and> set zs = set ys \<and> distinct zs \<and> distinct ys \<and> set ys = set S)
         \<and> validate_versatileimagefield_sizekey_list list_set [p, p]
             = validate_versatileimagefield_sizekey_list list_set [p]
         \<and> validate_versatileimagefield_sizekey_list list_set [p] = Inr [p]"
proof -
  have ok: "distinct (list_set xs) \<and> set (list_set xs) = set xs" for xs
    using assms(1) by (simp add: list_set_ok_def)
  have first: "validate_versatileimagefield_sizekey_list list_set S = Inr (list_set S)"
    using assms(2) by (rule validate_valid)
  have "list_all valid_pair (list_set S)"
    using assms(2) ok [of S] by (simp add: list_all_iff)
  then have second:
    "validate_versatileimagefield_sizekey_list list_set (list_set S) = Inr (list_set (list_set S))"
    by (rule validate_valid)
  have one: "list_set [p] = [p]"
    using ok [of "[p]"] by (intro distinct_singleton_set) simp_all
  have two: "list_set [p, p] = [p]"
    using ok [of "[p, p]"] by (intro distinct_singleton_set) simp_all
  have "validate_versatileimagefield_sizekey_list list_set [p] = Inr [p]"
    using assms(3) validate_valid [of "[p]" list_set] one by simp
  moreover have "validate_versatileimagefield_sizekey_list list_set [p, p] = Inr [p]"
    using assms(3) validate_valid [of "[p, p]" list_set] two by simp
  ultimately show ?thesis
    using first second ok [of S] ok [of "list_set S"] by simp
qed

lemma remdups_ok: "list_set_ok remdups"
  by (simp add: list_set_ok_def)

lemma ex_sizes_valid: "list_all valid_pair ex_sizes"
  by code_simp

lemma large_valid: "valid_pair (PTuple [''large'', ''url''])"
  by code_simp

theorem validate_idempotent_dedup_example:
  "validate_versatileimagefield_sizekey_list remdups ex_sizes
     = Inr [PTuple [''medium'', ''crop__400x400''], PTuple [''large'', ''url'']]
   \<and> validate_versatileimagefield_sizekey_list remdups
         [PTuple [''medium'', ''crop__400x400''], PTuple [''large'', ''url'']]
     = Inr [PTuple [''medium'', ''crop__400x400''], PTuple [''large'', ''url'']]
   \<and> validate_versatileimagefield_sizekey_list remdups
         [PTuple [''large'', ''url''], PTuple [''large'', ''url'']]
     = validate_versatileimagefield_sizekey_list remdups [PTuple [''large'', ''url'']]
   \<and> validate_versatileimagefield_sizekey_list remdups [PTuple [''large'', ''url'']]
     = Inr [PTuple [''large'', ''url'']]"
proof -
  from validate_idempotent_dedup [OF remdups_ok ex_sizes_valid large_valid]
  have dedup:
    "validate_versatileimagefield_sizekey_list remdups
         [PTuple [''large'', ''url''], PTuple [''large'', ''url'']]
     = validate_versatileimagefield_sizekey_list remdups [PTuple [''large'', ''url'']]
   \<and> validate_versatileimagefield_sizekey_list remdups [PTuple [''large'', ''url'']]
     = Inr [PTuple [''large'', ''url'']]"
    by simp
  have "validate_versatileimagefield_sizekey_list remdups ex_sizes
     = Inr [PTuple [''medium'', ''crop__400x400''], PTuple [''large'', ''url'']]"
    by code_simp
  moreover have "validate_versatileimagefield_sizekey_list remdups
         [PTuple [''medium'', ''crop__400x400''], PTuple [''large'', ''url'']]
     = Inr [PTuple [''medium'', ''crop__400x400''], PTuple [''large'', ''url'']]"
    by code_simp
  ultimately show ?thesis using dedup by simp
qed

section \<open>The URL set (C9)\<close>

lemma pairs_of_Nil: "pairs_of [] = []"
  by (simp add: pairs_of_def)

lemma pairs_of_Cons:
  "unpack2 e = Inr (l, k) \<Longrightarrow> pairs_of (e # es) = (l, k) # pairs_of es"
  by (simp add: pairs_of_def)


lemma valid_pair_unpacks: "valid_pair e \<Longrightarrow> \<exists>l k. unpack2 e = Inr (l, k)"
  by (cases "unpack2 e") (auto simp: valid_pair_def)



text \<open>
  When a key of the collection does not resolve, the loop raises and no mapping is
  returned.
\<close>

lemma build_loop_failure:
  assumes "list_all valid_pair vs"
      and "(l, k) \<in> set (pairs_of vs)"
      and "entry_url W inst req k = Inl err"
  shows "\<exists>err'. build_loop W inst req vs m0 = Inl err'"
  using assms
proof (induction vs arbitrary: m0)
  case Nil
  then show ?case by (simp add: pairs_of_Nil)
next
  case (Cons e vs)
  from Cons.prems(1) obtain l0 k0 where e: "unpack2 e = Inr (l0, k0)"
    using valid_pair_unpacks [of e] by auto
  then have ps: "pairs_of (e # vs) = (l0, k0) # pairs_of vs"
    by (rule pairs_of_Cons)
  show ?case
  proof (cases "entry_url W inst req k0")
    case (Inl err0)
    with e show ?thesis by simp
  next
    case (Inr u0)
    with Cons.prems(2,3) ps have "(l, k) \<in> set (pairs_of vs)" by auto
    moreover have "list_all valid_pair vs" using Cons.prems(1) by simp
    ultimately obtain err' where "build_loop W inst req vs (m0(l0 \<mapsto> u0)) = Inl err'"
      using Cons.IH [of "m0(l0 \<mapsto> u0)"] Cons.prems(3) by blast
    with e Inr show ?thesis by simp
  qed
qed













end
